theory Spec2Isabelle
  imports Main "HOL-Library.Word" "HOL-Library.AList"
begin

section \<open>JavaScript strings\<close>

text \<open>
  A JavaScript string is a sequence of UTF-16 code units; \<open>length\<close>, \<open>substring\<close>,
  \<open>startsWith\<close>, \<open>replace\<close> and the regular expressions of the source (none has the
  \<open>u\<close> flag) all work on code units. A string literal of the source is written
  \<open>js ''...''\<close>.
\<close>

type_synonym code_unit = "16 word"
type_synonym jsstring = "code_unit list"

definition js :: "string \<Rightarrow> jsstring" where
  "js s = map of_char s"

abbreviation DQUOTE :: code_unit where "DQUOTE \<equiv> 0x22"
abbreviation SQUOTE :: code_unit where "SQUOTE \<equiv> 0x27"
abbreviation SPACE :: code_unit where "SPACE \<equiv> 0x20"
abbreviation COLON :: code_unit where "COLON \<equiv> 0x3A"

text \<open>
  The class \<open>\s\<close> of a regular expression, which is also what \<open>trim\<close> removes:
  ECMAScript's WhiteSpace and LineTerminator code points (all of them in the BMP).
\<close>

definition is_space :: "code_unit \<Rightarrow> bool" where
  "is_space c =
     (c = 0x09 \<or> c = 0x0A \<or> c = 0x0B \<or> c = 0x0C \<or> c = 0x0D \<or> c = 0x20 \<or> c = 0xA0 \<or>
      c = 0x1680 \<or> (0x2000 \<le> c \<and> c \<le> 0x200A) \<or> c = 0x2028 \<or> c = 0x2029 \<or>
      c = 0x202F \<or> c = 0x205F \<or> c = 0x3000 \<or> c = 0xFEFF)"

definition is_quote :: "code_unit \<Rightarrow> bool" where
  "is_quote c = (c = DQUOTE \<or> c = SQUOTE)"

text \<open>\<open>s.trim()\<close>\<close>

definition trim :: "jsstring \<Rightarrow> jsstring" where
  "trim s = rev (dropWhile is_space (rev (dropWhile is_space s)))"

text \<open>\<open>s.replace(/\s+/g, ' ')\<close>: every maximal run of white space becomes one space.\<close>

function collapse_ws :: "jsstring \<Rightarrow> jsstring" where
  "collapse_ws [] = []"
| "collapse_ws (c # cs) =
     (if is_space c then SPACE # collapse_ws (dropWhile is_space cs)
      else c # collapse_ws cs)"
  by pat_completeness auto
termination
  by (relation "measure length") (auto simp: less_Suc_eq_le length_dropWhile_le)

text \<open>\<open>s.replace(/["']/g, '')\<close>: every quote character is deleted.\<close>

definition remove_quotes :: "jsstring \<Rightarrow> jsstring" where
  "remove_quotes s = filter (\<lambda>c. \<not> is_quote c) s"

text \<open>\<open>s.startsWith(p)\<close>\<close>

definition startsWith :: "jsstring \<Rightarrow> jsstring \<Rightarrow> bool" where
  "startsWith s p = (take (length p) s = p)"

text \<open>\<open>s.split(sep)\<close> for a separator of one code unit; the result is never empty.\<close>

fun split :: "code_unit \<Rightarrow> jsstring \<Rightarrow> jsstring list" where
  "split sep [] = [[]]"
| "split sep (c # cs) =
     (if c = sep then [] # split sep cs
      else (case split sep cs of p # ps \<Rightarrow> (c # p) # ps | [] \<Rightarrow> [[c]]))"

text \<open>\<open>pieces.join(sep)\<close>\<close>

fun join :: "code_unit \<Rightarrow> jsstring list \<Rightarrow> jsstring" where
  "join sep [] = []"
| "join sep [p] = p"
| "join sep (p # q # ps) = p @ sep # join sep (q # ps)"

text \<open>
  \<open>toUpperCase\<close> and \<open>toLowerCase\<close> apply the Unicode case mapping, a table of the
  platform that is not in the source (it covers every script, and it can change the
  length of a string). The model takes the two methods as a parameter, the record
  \<open>platform\<close>; the statements below hold for every platform.
\<close>

record platform =
  toLowerCase :: "jsstring \<Rightarrow> jsstring"
  toUpperCase :: "jsstring \<Rightarrow> jsstring"

text \<open>
  The case mapping of ASCII text: the letters \<open>a\<close> to \<open>z\<close> and \<open>A\<close> to \<open>Z\<close> are mapped,
  every other ASCII code unit is kept. On an ASCII string this is what \<open>toUpperCase\<close>
  and \<open>toLowerCase\<close> return, and \<open>ascii_case\<close> is the platform of the evaluations
  below, all of which are on ASCII commands. \<open>ascii_lower\<close> is also how an HTTP client
  puts a header name, which is ASCII, in lower case.
\<close>

definition upper_unit :: "code_unit \<Rightarrow> code_unit" where
  "upper_unit c = (if 0x61 \<le> c \<and> c \<le> 0x7A then c - 0x20 else c)"

definition lower_unit :: "code_unit \<Rightarrow> code_unit" where
  "lower_unit c = (if 0x41 \<le> c \<and> c \<le> 0x5A then c + 0x20 else c)"

definition ascii_upper :: "jsstring \<Rightarrow> jsstring" where
  "ascii_upper s = map upper_unit s"

definition ascii_lower :: "jsstring \<Rightarrow> jsstring" where
  "ascii_lower s = map lower_unit s"

definition ascii_case :: platform where
  "ascii_case = \<lparr>toLowerCase = ascii_lower, toUpperCase = ascii_upper\<rparr>"

section \<open>The request descriptor\<close>

text \<open>
  \<open>requestData.headers\<close> is a plain object used as a dictionary. It is an association
  list with distinct keys, in insertion order. \<open>obj[k] = v\<close> overwrites the value of an
  existing key and appends a new one, with one exception of the language: \<open>__proto__\<close>
  is an accessor property that every plain object inherits from \<open>Object.prototype\<close>, and
  its setter ignores a value that is neither an object nor \<open>null\<close>, so assigning a
  string to it stores nothing.
\<close>

type_synonym dict = "(jsstring \<times> jsstring) list"

definition set_prop :: "dict \<Rightarrow> jsstring \<Rightarrow> jsstring \<Rightarrow> dict" where
  "set_prop obj k v = (if k = js ''__proto__'' then obj else AList.update k v obj)"

text \<open>
  \<open>k in obj\<close>, for a name \<open>k\<close> that \<open>Object.prototype\<close> does not define (the source
  asks for \<open>Authorization\<close>, \<open>X-API-Key\<close> and four lower-case header names only).
\<close>

definition has_prop :: "jsstring \<Rightarrow> dict \<Rightarrow> bool" where
  "has_prop k obj = (map_of obj k \<noteq> None)"

text \<open>The field \<open>method\<close> of the source is \<open>http_method\<close> here.\<close>

record request_data =
  http_method :: jsstring
  url :: jsstring
  headers :: dict
  data :: "jsstring option"
  params :: dict

datatype parse_error =
    MustStartWithCurl
  | MissingValue jsstring
  | NoURL
  | InvalidURL

text \<open>The message of the \<open>Error\<close> that \<open>parseCurlCommand\<close> throws.\<close>

fun error_message :: "parse_error \<Rightarrow> jsstring" where
  "error_message MustStartWithCurl =
     js ''Error parsing curl command: Command must start with '' @ [SQUOTE] @ js ''curl'' @ [SQUOTE]"
| "error_message (MissingValue part) =
     js ''Error parsing curl command: Missing value for '' @ part"
| "error_message NoURL =
     js ''Error parsing curl command: No URL specified in curl command''"
| "error_message InvalidURL =
     js ''Error parsing curl command: Invalid URL format''"

section \<open>Splitting the command into parts\<close>

text \<open>
  \<open>curlCommand.match(/(?:[^\s"']+|"[^"]*"|'[^']*')+/g)\<close>. One round of the group
  matches, at the head of the input, a maximal run of code units that are neither
  white space nor quotes, or else a double-quoted span, or else a single-quoted span;
  a quote that is never closed matches nothing. Nothing follows the group in the
  expression, so the greedy choice is never undone.
\<close>

definition bare :: "code_unit \<Rightarrow> bool" where
  "bare c = (\<not> is_space c \<and> \<not> is_quote c)"

definition quoted_span :: "code_unit \<Rightarrow> jsstring \<Rightarrow> (jsstring \<times> jsstring) option" where
  "quoted_span q cs =
     (if q \<in> set cs
      then Some (q # takeWhile (\<lambda>c. c \<noteq> q) cs @ [q], tl (dropWhile (\<lambda>c. c \<noteq> q) cs))
      else None)"

definition match_piece :: "jsstring \<Rightarrow> (jsstring \<times> jsstring) option" where
  "match_piece s =
     (case s of
        [] \<Rightarrow> None
      | c # cs \<Rightarrow>
          if bare c then Some (takeWhile bare s, dropWhile bare s)
          else if c = DQUOTE then quoted_span DQUOTE cs
          else if c = SQUOTE then quoted_span SQUOTE cs
          else None)"

lemma match_piece_shorter:
  "match_piece s = Some (p, rest) \<Longrightarrow> length rest < length s"
proof (cases s)
  case Nil
  then show "match_piece s = Some (p, rest) \<Longrightarrow> length rest < length s"
    by (simp add: match_piece_def)
next
  case (Cons c cs)
  have tl_le: "length (tl (dropWhile P cs)) \<le> length cs" for P :: "code_unit \<Rightarrow> bool"
    using length_dropWhile_le [of P cs] by simp
  assume m: "match_piece s = Some (p, rest)"
  show "length rest < length s"
  proof (cases "bare c")
    case True
    with m Cons have "rest = dropWhile bare cs"
      by (simp add: match_piece_def)
    then show ?thesis
      using Cons length_dropWhile_le [of bare cs] by simp
  next
    case False
    with m Cons have "\<exists>q. rest = tl (dropWhile (\<lambda>c. c \<noteq> q) cs)"
      by (auto simp: match_piece_def quoted_span_def split: if_splits)
    then show ?thesis
      using Cons tl_le by (auto simp: less_Suc_eq_le)
  qed
qed

text \<open>The group under \<open>+\<close>: as many rounds as match, at least one.\<close>

function match_group :: "jsstring \<Rightarrow> (jsstring \<times> jsstring) option" where
  "match_group s =
     (case match_piece s of
        None \<Rightarrow> None
      | Some (p, rest) \<Rightarrow>
          (case match_group rest of
             None \<Rightarrow> Some (p, rest)
           | Some (q, rest') \<Rightarrow> Some (p @ q, rest')))"
  by pat_completeness auto
termination
  by (relation "measure length") (auto dest: match_piece_shorter)

declare match_group.simps [simp del]

lemma match_group_shorter:
  "match_group s = Some (t, rest) \<Longrightarrow> length rest < length s"
proof (induction s arbitrary: t rest rule: match_group.induct)
  case (1 s)
  from "1.prems" obtain p r where mp: "match_piece s = Some (p, r)"
    by (subst (asm) match_group.simps) (auto split: option.splits)
  have r: "length r < length s"
    using mp by (rule match_piece_shorter)
  show ?case
  proof (cases "match_group r")
    case None
    with "1.prems" mp have "rest = r"
      by (subst (asm) match_group.simps) simp
    with r show ?thesis by simp
  next
    case (Some a)
    obtain q r' where a: "a = (q, r')" by (cases a)
    with "1.prems" mp Some have "rest = r'"
      by (subst (asm) match_group.simps) simp
    moreover have "length r' < length r"
      using "1.IH" [OF mp refl] Some a by simp
    ultimately show ?thesis using r by simp
  qed
qed

text \<open>
  The flag \<open>g\<close>: the matches from left to right, the search resuming after each match
  and one code unit further where nothing matches. \<open>match\<close> returns \<open>null\<close> when there
  is no match at all, which is the empty list here.
\<close>

function match_all :: "jsstring \<Rightarrow> jsstring list" where
  "match_all [] = []"
| "match_all (c # cs) =
     (case match_group (c # cs) of
        None \<Rightarrow> match_all cs
      | Some (t, rest) \<Rightarrow> t # match_all rest)"
  by pat_completeness auto
termination
  by (relation "measure length") (auto dest: match_group_shorter)

section \<open>parseCurlCommand\<close>

text \<open>\<open>const URL_REGEX = /^(http|https):\/\/[^ "]+$/\<close> and its \<open>test\<close>.\<close>

definition URL_REGEX_tail :: "jsstring \<Rightarrow> bool" where
  "URL_REGEX_tail r = (r \<noteq> [] \<and> list_all (\<lambda>c. c \<noteq> SPACE \<and> c \<noteq> DQUOTE) r)"

definition URL_REGEX_test :: "jsstring \<Rightarrow> bool" where
  "URL_REGEX_test u =
     ((startsWith u (js ''http://'') \<and> URL_REGEX_tail (drop 7 u)) \<or>
      (startsWith u (js ''https://'') \<and> URL_REGEX_tail (drop 8 u)))"

text \<open>
  The guard \<open>!parts[0].toLowerCase() === 'curl'\<close>. The operator \<open>!\<close> binds tighter than
  \<open>===\<close>: the string is negated first (\<open>!s\<close> is \<open>true\<close> exactly for the empty string),
  and the boolean is then compared with a string by strict equality, which is \<open>false\<close>
  for operands of different types.
\<close>

definition js_not :: "jsstring \<Rightarrow> bool" where
  "js_not s = (s = [])"

definition strict_equals_bool_string :: "bool \<Rightarrow> jsstring \<Rightarrow> bool" where
  "strict_equals_bool_string b s = False"

definition requestData0 :: request_data where
  "requestData0 =
     \<lparr>http_method = js ''GET'', url = [], headers = [], data = None, params = []\<rparr>"

definition is_header_flag :: "jsstring \<Rightarrow> bool" where
  "is_header_flag part = (part = js ''-H'' \<or> part = js ''--header'')"

definition is_request_flag :: "jsstring \<Rightarrow> bool" where
  "is_request_flag part = (part = js ''-X'' \<or> part = js ''--request'')"

definition is_data_flag :: "jsstring \<Rightarrow> bool" where
  "is_data_flag part =
     (part = js ''-d'' \<or> part = js ''--data'' \<or> part = js ''--data-raw'')"

text \<open>The body of \<open>case '-H': case '--header':\<close>, given the value \<open>parts[++i]\<close>.\<close>

definition add_header :: "request_data \<Rightarrow> jsstring \<Rightarrow> request_data" where
  "add_header requestData v =
     (let headerLine = remove_quotes v;
          pieces = split COLON headerLine;
          key = hd pieces;
          value = tl pieces
      in requestData\<lparr>headers :=
           set_prop (headers requestData) (trim key) (trim (join COLON value))\<rparr>)"

text \<open>The body of \<open>case '-X': case '--request':\<close>.\<close>

definition set_method :: "platform \<Rightarrow> request_data \<Rightarrow> jsstring \<Rightarrow> request_data" where
  "set_method P requestData v = requestData\<lparr>http_method := toUpperCase P v\<rparr>"

text \<open>The body of \<open>case '-d': case '--data': case '--data-raw':\<close>.\<close>

definition set_data :: "request_data \<Rightarrow> jsstring \<Rightarrow> request_data" where
  "set_data requestData v =
     (let requestData = requestData\<lparr>data := Some (remove_quotes v)\<rparr>
      in if http_method requestData = js ''GET'' then requestData\<lparr>http_method := js ''POST''\<rparr>
         else requestData)"

text \<open>
  The loop \<open>for (let i = 1; i < parts.length; i++)\<close>, on the parts from index \<open>i\<close> on.
  A flag that takes a value and is the last part throws; otherwise \<open>++i\<close> consumes the
  value, whatever it looks like.
\<close>

fun parse_parts :: "platform \<Rightarrow> request_data \<Rightarrow> jsstring list \<Rightarrow> parse_error + request_data" where
  "parse_parts P requestData [] = Inr requestData"
| "parse_parts P requestData (part # rest) =
     (if \<not> startsWith part (js ''-'') then
        parse_parts P (requestData\<lparr>url := remove_quotes part\<rparr>) rest
      else if is_header_flag part then
        (case rest of
           [] \<Rightarrow> Inl (MissingValue part)
         | v # rest' \<Rightarrow> parse_parts P (add_header requestData v) rest')
      else if is_request_flag part then
        (case rest of
           [] \<Rightarrow> Inl (MissingValue part)
         | v # rest' \<Rightarrow> parse_parts P (set_method P requestData v) rest')
      else if is_data_flag part then
        (case rest of
           [] \<Rightarrow> Inl (MissingValue part)
         | v # rest' \<Rightarrow> parse_parts P (set_data requestData v) rest')
      else parse_parts P requestData rest)"

text \<open>The checks after the loop: \<open>!requestData.url\<close>, then \<open>URL_REGEX\<close>.\<close>

definition validate :: "request_data \<Rightarrow> parse_error + request_data" where
  "validate requestData =
     (if url requestData = [] then Inl NoURL
      else if \<not> URL_REGEX_test (url requestData) then Inl InvalidURL
      else Inr requestData)"

text \<open>The function from the list of parts on (the body of \<open>try\<close> after \<open>match\<close>).\<close>

definition parse_matched :: "platform \<Rightarrow> jsstring list \<Rightarrow> parse_error + request_data" where
  "parse_matched P parts =
     (case parts of
        [] \<Rightarrow> Inl MustStartWithCurl
      | first # rest \<Rightarrow>
          if strict_equals_bool_string (js_not (toLowerCase P first)) (js ''curl'')
          then Inl MustStartWithCurl
          else (case parse_parts P requestData0 rest of
                  Inl e \<Rightarrow> Inl e
                | Inr requestData \<Rightarrow> validate requestData))"

definition parseCurlCommand :: "platform \<Rightarrow> jsstring \<Rightarrow> parse_error + request_data" where
  "parseCurlCommand P curlCommand =
     parse_matched P (match_all (collapse_ws (trim curlCommand)))"

section \<open>analyzeRequest\<close>

text \<open>
  \<open>new URL(requestData.url)\<close> is the platform's URL parser, which throws a \<open>TypeError\<close>
  on a string it does not accept. The model takes it as the parameter \<open>new_URL\<close>
  (\<open>None\<close> when it throws) and reads the five properties the source reads.
\<close>

record URL =
  protocol :: jsstring
  host :: jsstring
  pathname :: jsstring
  search :: jsstring
  hash :: jsstring

record url_analysis =
  scheme :: jsstring
  url_host :: jsstring
  path :: jsstring
  query_params :: jsstring
  fragment :: jsstring

record headers_summary =
  count :: nat
  details :: dict

record authentication =
  auth_present :: bool
  auth_type :: "jsstring option"

text \<open>
  \<open>analysis.body\<close>: \<open>{present: false}\<close> has no other field, which is \<open>None\<close> for
  \<open>size_bytes\<close> and \<open>content_preview\<close>.
\<close>

record body_summary =
  body_present :: bool
  size_bytes :: "nat option"
  content_preview :: "jsstring option"

record analysis =
  analysis_method :: jsstring
  analysis_url :: url_analysis
  analysis_headers :: headers_summary
  analysis_authentication :: authentication
  analysis_body :: body_summary

text \<open>\<open>s.replace(':', '')\<close>: a string pattern replaces the first occurrence only.\<close>

fun remove_first :: "code_unit \<Rightarrow> jsstring \<Rightarrow> jsstring" where
  "remove_first x [] = []"
| "remove_first x (c # cs) = (if c = x then cs else c # remove_first x cs)"

text \<open>
  The table \<open>authHeaders\<close> and the loop over it. A prefix of \<open>null\<close> is \<open>None\<close>; the test
  \<open>prefix && ...\<close> is also false for the empty string.
\<close>

type_synonym auth_rule = "jsstring \<times> jsstring option \<times> jsstring"

definition authHeaders :: "auth_rule list" where
  "authHeaders =
     [(js ''Authorization'', Some (js ''Bearer''), js ''Bearer Token''),
      (js ''Authorization'', Some (js ''Basic''), js ''Basic Auth''),
      (js ''X-API-Key'', None, js ''API Key'')]"

fun auth_step :: "dict \<Rightarrow> authentication \<Rightarrow> auth_rule \<Rightarrow> authentication" where
  "auth_step hs a (header, prefix, authType) =
     (case map_of hs header of
        None \<Rightarrow> a
      | Some v \<Rightarrow>
          (let a = a\<lparr>auth_present := True\<rparr> in
           case prefix of
             None \<Rightarrow> a\<lparr>auth_type := Some authType\<rparr>
           | Some p \<Rightarrow>
               if p \<noteq> [] \<and> startsWith v p then a\<lparr>auth_type := Some authType\<rparr>
               else if p = [] then a\<lparr>auth_type := Some authType\<rparr>
               else a))"

definition auth_loop :: "auth_rule list \<Rightarrow> dict \<Rightarrow> authentication" where
  "auth_loop table hs = foldl (auth_step hs) \<lparr>auth_present = False, auth_type = None\<rparr> table"

text \<open>
  \<open>new Blob([s]).size\<close>: the number of bytes of the UTF-8 encoding of \<open>s\<close>. The string
  is first read as scalar values: a high surrogate followed by a low one is one code
  point beyond the BMP, and any other surrogate is replaced by U+FFFD.
\<close>

definition is_high_surrogate :: "code_unit \<Rightarrow> bool" where
  "is_high_surrogate c = (0xD800 \<le> c \<and> c \<le> 0xDBFF)"

definition is_low_surrogate :: "code_unit \<Rightarrow> bool" where
  "is_low_surrogate c = (0xDC00 \<le> c \<and> c \<le> 0xDFFF)"

definition scalar :: "code_unit \<Rightarrow> nat" where
  "scalar c = (if is_high_surrogate c \<or> is_low_surrogate c then 0xFFFD else unat c)"

fun code_points :: "jsstring \<Rightarrow> nat list" where
  "code_points [] = []"
| "code_points [c] = [scalar c]"
| "code_points (c # d # cs) =
     (if is_high_surrogate c \<and> is_low_surrogate d
      then (0x10000 + (unat c - 0xD800) * 0x400 + (unat d - 0xDC00)) # code_points cs
      else scalar c # code_points (d # cs))"

definition utf8_encode :: "nat \<Rightarrow> 8 word list" where
  "utf8_encode cp =
     (if cp < 0x80 then [of_nat cp]
      else if cp < 0x800 then [of_nat (0xC0 + cp div 0x40), of_nat (0x80 + cp mod 0x40)]
      else if cp < 0x10000 then
        [of_nat (0xE0 + cp div 0x1000), of_nat (0x80 + cp div 0x40 mod 0x40),
         of_nat (0x80 + cp mod 0x40)]
      else
        [of_nat (0xF0 + cp div 0x40000), of_nat (0x80 + cp div 0x1000 mod 0x40),
         of_nat (0x80 + cp div 0x40 mod 0x40), of_nat (0x80 + cp mod 0x40)])"

definition utf8 :: "jsstring \<Rightarrow> 8 word list" where
  "utf8 s = concat (map utf8_encode (code_points s))"

definition blob_size :: "jsstring \<Rightarrow> nat" where
  "blob_size s = length (utf8 s)"

text \<open>
  The body block. \<open>if (requestData.data)\<close> tests truthiness: \<open>null\<close> and the empty
  string both take the \<open>else\<close> branch.
\<close>

definition analyze_body :: "jsstring option \<Rightarrow> body_summary" where
  "analyze_body d =
     (case d of
        None \<Rightarrow> \<lparr>body_present = False, size_bytes = None, content_preview = None\<rparr>
      | Some s \<Rightarrow>
          if s \<noteq> [] then
            \<lparr>body_present = True,
             size_bytes = Some (blob_size s),
             content_preview = Some (if length s > 200 then take 200 s @ js ''...'' else s)\<rparr>
          else \<lparr>body_present = False, size_bytes = None, content_preview = None\<rparr>)"

definition analyzeRequest :: "(jsstring \<Rightarrow> URL option) \<Rightarrow> request_data \<Rightarrow> analysis option" where
  "analyzeRequest new_URL requestData =
     (case new_URL (url requestData) of
        None \<Rightarrow> None
      | Some u \<Rightarrow>
          Some \<lparr>analysis_method = http_method requestData,
                analysis_url =
                  \<lparr>scheme = remove_first COLON (protocol u), url_host = host u,
                   path = pathname u, query_params = search u, fragment = hash u\<rparr>,
                analysis_headers =
                  \<lparr>count = length (remdups (map fst (headers requestData))),
                   details = headers requestData\<rparr>,
                analysis_authentication = auth_loop authHeaders (headers requestData),
                analysis_body = analyze_body (data requestData)\<rparr>)"

section \<open>analyzeResponse\<close>

text \<open>
  The request itself is the HTTP client's work: the model starts from its outcome,
  an error message when \<open>axios\<close> throws, or the response. \<open>validateStatus: () => true\<close>
  makes every status a response. The response's header names are in lower case, as
  the client delivers them, and \<open>responseUrl\<close> is \<open>response.request.res.responseUrl\<close>.
  Of the analysis, the fields read from the status line, the headers and the final URL
  are modelled; \<open>content\<close>, \<open>raw\<close>, \<open>size\<close>, \<open>timing\<close> and
  \<open>cookies\<close> (the body's rendering and the clock) are left out.
\<close>

record response =
  status :: nat
  statusText :: jsstring
  response_headers :: dict
  responseUrl :: jsstring

record security_header =
  present :: bool
  description :: jsstring

record response_analysis =
  status_code :: nat
  reason :: jsstring
  ra_headers :: dict
  content_type :: jsstring
  encoding :: jsstring
  redirect_count :: nat
  final_url :: jsstring
  security_analysis :: "(jsstring \<times> security_header) list"

text \<open>\<open>obj[k] || dflt\<close> for string values: the default also replaces an empty string.\<close>

definition get_or :: "dict \<Rightarrow> jsstring \<Rightarrow> jsstring \<Rightarrow> jsstring" where
  "get_or obj k dflt = (case map_of obj k of None \<Rightarrow> dflt | Some v \<Rightarrow> if v = [] then dflt else v)"

definition securityHeaders :: "dict \<Rightarrow> (jsstring \<times> security_header) list" where
  "securityHeaders hs =
     [(js ''Strict-Transport-Security'',
       \<lparr>present = has_prop (js ''strict-transport-security'') hs,
        description = js ''Enforces secure (HTTPS) connections to the server''\<rparr>),
      (js ''X-Frame-Options'',
       \<lparr>present = has_prop (js ''x-frame-options'') hs,
        description = js ''Protects against clickjacking attacks''\<rparr>),
      (js ''X-Content-Type-Options'',
       \<lparr>present = has_prop (js ''x-content-type-options'') hs,
        description = js ''Prevents MIME type sniffing''\<rparr>),
      (js ''X-XSS-Protection'',
       \<lparr>present = has_prop (js ''x-xss-protection'') hs,
        description = js ''Enables cross-site scripting filter in browsers''\<rparr>)]"

definition analyzeResponse :: "request_data \<Rightarrow> jsstring + response \<Rightarrow> jsstring + response_analysis" where
  "analyzeResponse requestData outcome =
     (case outcome of
        Inl message \<Rightarrow> Inl (js ''Request failed: '' @ message)
      | Inr r \<Rightarrow>
          Inr \<lparr>status_code = status r,
               reason = statusText r,
               ra_headers = response_headers r,
               content_type = get_or (response_headers r) (js ''content-type'') [],
               encoding = get_or (response_headers r) (js ''content-encoding'') (js ''identity''),
               redirect_count = (if responseUrl r \<noteq> url requestData then 1 else 0),
               final_url = responseUrl r,
               security_analysis = securityHeaders (response_headers r)\<rparr>)"

text \<open>
  What the HTTP client does to the header fields of the wire before the source sees
  them: each field name is put in lower case (field names are ASCII).
\<close>

definition received_headers :: "dict \<Rightarrow> dict" where
  "received_headers wire = map (\<lambda>(name, v). (ascii_lower name, v)) wire"

section \<open>Which parts the loop reads as what\<close>

text \<open>
  The parts of a command, as \<open>parseCurlCommand\<close> computes them, and the parts that
  the loop reads as a URL: those that do not start with \<open>-\<close> and are not consumed as
  the value of \<open>-H\<close>, \<open>-X\<close>, \<open>-d\<close> or their long forms.
\<close>

definition command_parts :: "jsstring \<Rightarrow> jsstring list" where
  "command_parts curlCommand = match_all (collapse_ws (trim curlCommand))"

definition takes_value :: "jsstring \<Rightarrow> bool" where
  "takes_value part = (is_header_flag part \<or> is_request_flag part \<or> is_data_flag part)"

fun url_candidates :: "jsstring list \<Rightarrow> jsstring list" where
  "url_candidates [] = []"
| "url_candidates (part # rest) =
     (if \<not> startsWith part (js ''-'') then part # url_candidates rest
      else if takes_value part then (case rest of [] \<Rightarrow> [] | v # rest' \<Rightarrow> url_candidates rest')
      else url_candidates rest)"

text \<open>
  The values of the data flags and of the header flags that the loop reads, in the
  order of the command.
\<close>

fun data_values :: "jsstring list \<Rightarrow> jsstring list" where
  "data_values [] = []"
| "data_values (part # rest) =
     (if \<not> startsWith part (js ''-'') then data_values rest
      else if takes_value part then
        (case rest of
           [] \<Rightarrow> []
         | v # rest' \<Rightarrow> (if is_data_flag part then v # data_values rest' else data_values rest'))
      else data_values rest)"

fun header_values :: "jsstring list \<Rightarrow> jsstring list" where
  "header_values [] = []"
| "header_values (part # rest) =
     (if \<not> startsWith part (js ''-'') then header_values rest
      else if takes_value part then
        (case rest of
           [] \<Rightarrow> []
         | v # rest' \<Rightarrow> (if is_header_flag part then v # header_values rest' else header_values rest'))
      else header_values rest)"

text \<open>
  A header line after the quotes are removed: the key is what stands before the first
  colon, the value what stands after it (nothing when there is no colon), both
  trimmed. \<open>assign_header\<close> is the assignment \<open>headers[key] = value\<close> for the line of
  a value part.
\<close>

definition header_key :: "jsstring \<Rightarrow> jsstring" where
  "header_key v = trim (takeWhile (\<lambda>c. c \<noteq> COLON) (remove_quotes v))"

definition header_value :: "jsstring \<Rightarrow> jsstring" where
  "header_value v = trim (tl (dropWhile (\<lambda>c. c \<noteq> COLON) (remove_quotes v)))"

definition assign_header :: "dict \<Rightarrow> jsstring \<Rightarrow> dict" where
  "assign_header hs v = set_prop hs (header_key v) (header_value v)"

text \<open>
  The header value in the words of the specification: the surrounding quotes of the
  part are stripped (a part that starts and ends with the same quote character loses
  these two, and nothing else is removed), and the value is what stands after the
  first colon, trimmed.
\<close>

definition strip_surrounding_quotes :: "jsstring \<Rightarrow> jsstring" where
  "strip_surrounding_quotes t =
     (case t of
        [] \<Rightarrow> []
      | q # cs \<Rightarrow> if is_quote q \<and> cs \<noteq> [] \<and> last cs = q then butlast cs else t)"

definition claimed_header_value :: "jsstring \<Rightarrow> jsstring" where
  "claimed_header_value v =
     trim (tl (dropWhile (\<lambda>c. c \<noteq> COLON) (strip_surrounding_quotes v)))"

text \<open>A string, or a dictionary, in which no quote character is left.\<close>

definition quote_free :: "jsstring \<Rightarrow> bool" where
  "quote_free s = list_all (\<lambda>c. \<not> is_quote c) s"

definition quote_free_dict :: "dict \<Rightarrow> bool" where
  "quote_free_dict hs = list_all (\<lambda>(k, v). quote_free k \<and> quote_free v) hs"

text \<open>A flag that the \<open>switch\<close> does not know: it starts with \<open>-\<close> and falls to \<open>default\<close>.\<close>

definition is_unknown_flag :: "jsstring \<Rightarrow> bool" where
  "is_unknown_flag part = (startsWith part (js ''-'') \<and> \<not> takes_value part)"

section \<open>Which rule decides the authentication type\<close>

text \<open>
  A rule of the table matches the headers when its header is there and, if the rule
  has a prefix, the value starts with it. \<open>last_match\<close> is the type of the last
  matching rule in table order, \<open>None\<close> (the source's \<open>null\<close>) when no rule matches.
\<close>

fun rule_matches :: "dict \<Rightarrow> auth_rule \<Rightarrow> bool" where
  "rule_matches hs (header, prefix, authType) =
     (case map_of hs header of
        None \<Rightarrow> False
      | Some v \<Rightarrow> (case prefix of None \<Rightarrow> True | Some p \<Rightarrow> p = [] \<or> startsWith v p))"

definition last_match :: "auth_rule list \<Rightarrow> dict \<Rightarrow> jsstring option" where
  "last_match table hs =
     (let ms = filter (rule_matches hs) table
      in if ms = [] then None else Some (snd (snd (last ms))))"

definition header_starts :: "dict \<Rightarrow> jsstring \<Rightarrow> jsstring \<Rightarrow> bool" where
  "header_starts hs header p =
     (case map_of hs header of None \<Rightarrow> False | Some v \<Rightarrow> startsWith v p)"

text \<open>
  A stand-in for the platform's URL parser in the evaluations below: it accepts every
  string and reads it as \<open>https://example.com/\<close>.
\<close>

definition example_URL :: "jsstring \<Rightarrow> URL option" where
  "example_URL u =
     Some \<lparr>protocol = js ''https:'', host = js ''example.com'', pathname = js ''/'',
           search = [], hash = []\<rparr>"

text \<open>The summary \<open>{present: false}\<close>.\<close>

definition absent_body :: body_summary where
  "absent_body = \<lparr>body_present = False, size_bytes = None, content_preview = None\<rparr>"

section \<open>The four security headers\<close>

text \<open>The keys and the descriptions of the audit, in the order of the source.\<close>

definition security_header_names :: "jsstring list" where
  "security_header_names =
     [js ''Strict-Transport-Security'', js ''X-Frame-Options'',
      js ''X-Content-Type-Options'', js ''X-XSS-Protection'']"

definition security_header_descriptions :: "jsstring list" where
  "security_header_descriptions =
     [js ''Enforces secure (HTTPS) connections to the server'',
      js ''Protects against clickjacking attacks'',
      js ''Prevents MIME type sniffing'',
      js ''Enables cross-site scripting filter in browsers'']"

text \<open>
  A header of the given name was sent, in whatever case the server wrote the name.
\<close>

definition sent_as :: "dict \<Rightarrow> jsstring \<Rightarrow> bool" where
  "sent_as wire name = list_ex (\<lambda>(n, v). ascii_lower n = ascii_lower name) wire"

section \<open>The invocation keyword\<close>

lemma parse_matched_ignores_first:
  "parse_matched P (first # rest) = parse_matched P (first' # rest)"
  by (simp add: parse_matched_def strict_equals_bool_string_def)

text \<open>
  Claim C2. A command whose first part is not \<open>curl\<close> (in any case) must fail to
  parse. The guard that should enforce it compares a boolean with a string and never
  fires: \<open>wget https://example.com\<close> is parsed like the \<open>curl\<close> command, and the
  descriptor is returned, on every platform.
\<close>

theorem parseCurlCommand_accepts_wget:
  "parseCurlCommand P (js ''wget https://example.com'') =
     Inr \<lparr>http_method = js ''GET'', url = js ''https://example.com'', headers = [],
          data = None, params = []\<rparr>"
  by code_simp

section \<open>Facts about the loop\<close>

lemma data_flag_is_flag:
  "is_data_flag part \<Longrightarrow>
     startsWith part (js ''-'') \<and> \<not> is_header_flag part \<and> \<not> is_request_flag part"
  by (auto simp: is_data_flag_def is_header_flag_def is_request_flag_def startsWith_def js_def)

lemma request_flag_is_flag:
  "is_request_flag part \<Longrightarrow> startsWith part (js ''-'') \<and> \<not> is_header_flag part"
  by (auto simp: is_header_flag_def is_request_flag_def startsWith_def js_def)

lemma header_flag_is_flag:
  "is_header_flag part \<Longrightarrow> startsWith part (js ''-'')"
  by (auto simp: is_header_flag_def startsWith_def js_def)

lemma flags_exclusive:
  "is_header_flag part \<Longrightarrow> \<not> is_request_flag part \<and> \<not> is_data_flag part"
  "is_request_flag part \<Longrightarrow> \<not> is_data_flag part"
  by (auto simp: is_data_flag_def is_header_flag_def is_request_flag_def js_def)

lemma parse_parts_append:
  "parse_parts P rd pre = Inr rd' \<Longrightarrow> parse_parts P rd (pre @ post) = parse_parts P rd' post"
proof (induction P rd pre rule: parse_parts.induct)
  case (1 P requestData)
  then show ?case by simp
next
  case (2 P requestData part rest)
  show ?case
  proof (cases rest)
    case Nil
    with "2.prems" have nv: "\<not> takes_value part \<or> \<not> startsWith part (js ''-'')"
      by (auto simp: takes_value_def split: if_splits)
    with "2.prems" Nil show ?thesis
      by (cases post) (auto simp: takes_value_def split: if_splits)
  next
    case (Cons v rest')
    with "2.prems" "2.IH" show ?thesis
      by (auto split: if_splits)
  qed
qed

section \<open>The URL of the descriptor\<close>

lemma url_add_header [simp]: "url (add_header rd v) = url rd"
  by (simp add: add_header_def Let_def)

lemma url_set_method [simp]: "url (set_method P rd v) = url rd"
  by (simp add: set_method_def)

lemma url_set_data [simp]: "url (set_data rd v) = url rd"
  by (simp add: set_data_def Let_def)

lemma parse_parts_url:
  "parse_parts P rd ps = Inr rd' \<Longrightarrow>
     url rd' = (if url_candidates ps = [] then url rd else remove_quotes (last (url_candidates ps)))"
proof (induction P rd ps rule: parse_parts.induct)
  case (1 P requestData)
  then show ?case by simp
next
  case (2 P requestData part rest)
  show ?case
  proof (cases "startsWith part (js ''-'')")
    case False
    with "2.prems" have "parse_parts P (requestData\<lparr>url := remove_quotes part\<rparr>) rest = Inr rd'"
      by simp
    from "2.IH"(1) [OF False this] False show ?thesis by simp
  next
    case dash: True
    show ?thesis
    proof (cases "takes_value part")
      case False
      then have nf: "\<not> is_header_flag part" "\<not> is_request_flag part" "\<not> is_data_flag part"
        by (simp_all add: takes_value_def)
      with "2.prems" dash have "parse_parts P requestData rest = Inr rd'" by simp
      from "2.IH"(5) [OF _ nf this] dash False show ?thesis by simp
    next
      case True
      show ?thesis
      proof (cases rest)
        case Nil
        with "2.prems" dash True show ?thesis
          by (auto simp: takes_value_def split: if_splits)
      next
        case (Cons v rest')
        consider (h) "is_header_flag part"
          | (x) "\<not> is_header_flag part" "is_request_flag part"
          | (d) "\<not> is_header_flag part" "\<not> is_request_flag part" "is_data_flag part"
          using True by (auto simp: takes_value_def)
        then show ?thesis
        proof cases
          case h
          with "2.prems" dash Cons have "parse_parts P (add_header requestData v) rest' = Inr rd'"
            by simp
          from "2.IH"(2) [OF _ h Cons this] dash True Cons show ?thesis by simp
        next
          case x
          with "2.prems" dash Cons have "parse_parts P (set_method P requestData v) rest' = Inr rd'"
            by simp
          from "2.IH"(3) [OF _ x Cons this] dash True Cons show ?thesis by simp
        next
          case d
          with "2.prems" dash Cons have "parse_parts P (set_data requestData v) rest' = Inr rd'"
            by simp
          from "2.IH"(4) [OF _ d Cons this] dash True Cons show ?thesis by simp
        qed
      qed
    qed
  qed
qed

lemma add_header_url_update:
  "add_header (rd\<lparr>url := u\<rparr>) v = (add_header rd v)\<lparr>url := u\<rparr>"
  by (simp add: add_header_def Let_def)

lemma set_method_url_update:
  "set_method P (rd\<lparr>url := u\<rparr>) v = (set_method P rd v)\<lparr>url := u\<rparr>"
  by (simp add: set_method_def)

lemma set_data_url_update:
  "set_data (rd\<lparr>url := u\<rparr>) v = (set_data rd v)\<lparr>url := u\<rparr>"
  by (simp add: set_data_def Let_def)

lemma parse_parts_url_overwritten:
  "url_candidates ps \<noteq> [] \<Longrightarrow> parse_parts P (rd\<lparr>url := u\<rparr>) ps = parse_parts P rd ps"
proof (induction P rd ps rule: parse_parts.induct)
  case (1 P requestData)
  then show ?case by simp
next
  case (2 P requestData part rest)
  show ?case
  proof (cases "startsWith part (js ''-'')")
    case False
    then show ?thesis by simp
  next
    case dash: True
    show ?thesis
    proof (cases "takes_value part")
      case False
      then have nf: "\<not> is_header_flag part" "\<not> is_request_flag part" "\<not> is_data_flag part"
        by (simp_all add: takes_value_def)
      from "2.prems" dash False have "url_candidates rest \<noteq> []" by simp
      from "2.IH"(5) [OF _ nf this] dash nf show ?thesis by simp
    next
      case True
      show ?thesis
      proof (cases rest)
        case Nil
        with "2.prems" dash True show ?thesis by simp
      next
        case (Cons v rest')
        with "2.prems" dash True have c: "url_candidates rest' \<noteq> []" by simp
        consider (h) "is_header_flag part"
          | (x) "\<not> is_header_flag part" "is_request_flag part"
          | (d) "\<not> is_header_flag part" "\<not> is_request_flag part" "is_data_flag part"
          using True by (auto simp: takes_value_def)
        then show ?thesis
        proof cases
          case h
          from "2.IH"(2) [OF _ h Cons c] dash h Cons show ?thesis
            by (simp add: add_header_url_update)
        next
          case x
          from "2.IH"(3) [OF _ x Cons c] dash x Cons show ?thesis
            by (simp add: set_method_url_update)
        next
          case d
          from "2.IH"(4) [OF _ d Cons c] dash d Cons show ?thesis
            by (simp add: set_data_url_update)
        qed
      qed
    qed
  qed
qed

text \<open>
  Claim C1, as amended. When a command parses, the URL of the descriptor is the last
  part that the loop reads as a URL, with its quotes removed, and there is such a part.
  Every earlier one is silently ignored: wherever the loop reads a part that does not
  start with \<open>-\<close> and a later part is read as a URL too, the parse goes on exactly as
  without the earlier part, to the same descriptor or the same error.
\<close>

theorem url_is_last_candidate:
  "(parseCurlCommand P curlCommand = Inr requestData \<longrightarrow>
      url_candidates (tl (command_parts curlCommand)) \<noteq> [] \<and>
      url requestData = remove_quotes (last (url_candidates (tl (command_parts curlCommand))))) \<and>
   (\<not> startsWith part (js ''-'') \<and> url_candidates rest \<noteq> [] \<longrightarrow>
      parse_parts P rd (part # rest) = parse_parts P rd rest)"
proof (intro conjI impI)
  assume parsed: "parseCurlCommand P curlCommand = Inr requestData"
  obtain first ps where parts: "command_parts curlCommand = first # ps"
    using parsed by (cases "command_parts curlCommand")
      (simp_all add: parseCurlCommand_def command_parts_def parse_matched_def)
  from parsed parts obtain r where
    loop: "parse_parts P requestData0 ps = Inr r" and v: "validate r = Inr requestData"
    by (auto simp: parseCurlCommand_def command_parts_def parse_matched_def
        strict_equals_bool_string_def split: sum.splits)
  from v have same: "requestData = r" and nonempty: "url r \<noteq> []"
    by (auto simp: validate_def split: if_splits)
  have "url requestData0 = []" by (simp add: requestData0_def)
  with parse_parts_url [OF loop] nonempty same parts
  show "url_candidates (tl (command_parts curlCommand)) \<noteq> []"
    and "url requestData = remove_quotes (last (url_candidates (tl (command_parts curlCommand))))"
    by (auto split: if_splits)
next
  assume "\<not> startsWith part (js ''-'') \<and> url_candidates rest \<noteq> []"
  then show "parse_parts P rd (part # rest) = parse_parts P rd rest"
    by (simp add: parse_parts_url_overwritten)
qed

theorem url_is_last_candidate_witness:
  "parseCurlCommand ascii_case (js ''curl https://a.example -k https://b.example'') =
     Inr \<lparr>http_method = js ''GET'', url = js ''https://b.example'', headers = [],
          data = None, params = []\<rparr> \<and>
   url_candidates (tl (command_parts (js ''curl https://a.example -k https://b.example''))) =
     [js ''https://a.example'', js ''https://b.example''] \<and>
   \<not> startsWith (js ''https://a.example'') (js ''-'') \<and>
   url_candidates [js ''-k'', js ''https://b.example''] = [js ''https://b.example''] \<and>
   parse_parts ascii_case requestData0
     [js ''https://a.example'', js ''-k'', js ''https://b.example''] =
     parse_parts ascii_case requestData0 [js ''-k'', js ''https://b.example'']"
proof -
  have p: "parseCurlCommand ascii_case (js ''curl https://a.example -k https://b.example'') =
     Inr \<lparr>http_method = js ''GET'', url = js ''https://b.example'', headers = [],
          data = None, params = []\<rparr>"
    by code_simp
  have c: "url_candidates (tl (command_parts (js ''curl https://a.example -k https://b.example''))) =
     [js ''https://a.example'', js ''https://b.example'']"
    by code_simp
  have n: "\<not> startsWith (js ''https://a.example'') (js ''-'')"
    by code_simp
  have r: "url_candidates [js ''-k'', js ''https://b.example''] = [js ''https://b.example'']"
    by code_simp
  from url_is_last_candidate [where P = ascii_case
      and curlCommand = "js ''curl https://a.example -k https://b.example''"
      and requestData = "\<lparr>http_method = js ''GET'', url = js ''https://b.example'', headers = [],
          data = None, params = []\<rparr>"
      and part = "js ''https://a.example''" and rest = "[js ''-k'', js ''https://b.example'']"
      and rd = requestData0] p c n r
  show ?thesis by simp
qed

text \<open>
  Claim C1, as stated, fails. With two URLs in the command, the descriptor holds the
  second one, not the first; and a further part that is not a URL makes the parse
  fail instead of being ignored.
\<close>

theorem first_url_counterexample:
  "url_candidates (tl (command_parts (js ''curl https://a.example https://b.example''))) =
     [js ''https://a.example'', js ''https://b.example''] \<and>
   parseCurlCommand ascii_case (js ''curl https://a.example https://b.example'') =
     Inr \<lparr>http_method = js ''GET'', url = js ''https://b.example'', headers = [],
          data = None, params = []\<rparr> \<and>
   js ''https://b.example'' \<noteq> js ''https://a.example'' \<and>
   parseCurlCommand ascii_case (js ''curl https://a.example notes.txt'') = Inl InvalidURL"
  by code_simp

section \<open>The data flags and the method\<close>

lemma set_data_eq:
  "set_data rd v =
     rd\<lparr>data := Some (remove_quotes v),
        http_method := (if http_method rd = js ''GET'' then js ''POST'' else http_method rd)\<rparr>"
  by (simp add: set_data_def Let_def)

text \<open>
  Claim C3, as amended. Reading \<open>-d\<close>, \<open>--data\<close> or \<open>--data-raw\<close> with its value stores the
  body and sets the method to \<open>POST\<close> exactly when the method is the string \<open>GET\<close> at
  that moment, whether \<open>GET\<close> is the default or was set by \<open>-X\<close>; any other method is
  kept. This holds in the state that the parts before the flag leave behind, whatever
  they are. In particular, right after \<open>-X m\<close> the data flag leaves the method \<open>m\<close> in
  upper case alone, unless that is \<open>GET\<close>.
\<close>

theorem data_flag_promotion:
  assumes "is_data_flag part"
  shows "(parse_parts P rd pre = Inr rd1 \<longrightarrow>
            parse_parts P rd (pre @ part # v # rest) =
              parse_parts P
                (rd1\<lparr>data := Some (remove_quotes v),
                     http_method :=
                       (if http_method rd1 = js ''GET'' then js ''POST'' else http_method rd1)\<rparr>)
                rest) \<and>
         (is_request_flag x \<longrightarrow>
            parse_parts P rd (x # m # part # v # rest) =
              parse_parts P
                (rd\<lparr>data := Some (remove_quotes v),
                    http_method := (if toUpperCase P m = js ''GET'' then js ''POST'' else toUpperCase P m)\<rparr>)
                rest)"
proof -
  have step: "parse_parts P r (part # v # rest) = parse_parts P (set_data r v) rest" for r
    using data_flag_is_flag [OF assms] assms by simp
  have first: "parse_parts P rd (pre @ part # v # rest) =
              parse_parts P
                (rd1\<lparr>data := Some (remove_quotes v),
                     http_method :=
                       (if http_method rd1 = js ''GET'' then js ''POST'' else http_method rd1)\<rparr>)
                rest" if pre: "parse_parts P rd pre = Inr rd1"
  proof -
    have "parse_parts P rd (pre @ part # v # rest) = parse_parts P rd1 (part # v # rest)"
      using pre by (rule parse_parts_append)
    also have "\<dots> = parse_parts P (set_data rd1 v) rest"
      by (rule step)
    finally show ?thesis
      by (simp only: set_data_eq)
  qed
  have second: "parse_parts P rd (x # m # part # v # rest) =
              parse_parts P
                (rd\<lparr>data := Some (remove_quotes v),
                    http_method := (if toUpperCase P m = js ''GET'' then js ''POST'' else toUpperCase P m)\<rparr>)
                rest" if x: "is_request_flag x"
  proof -
    have "parse_parts P rd (x # m # part # v # rest) =
            parse_parts P (set_method P rd m) (part # v # rest)"
      using request_flag_is_flag [OF x] x by simp
    also have "\<dots> = parse_parts P (set_data (set_method P rd m) v) rest"
      by (rule step)
    also have "set_data (set_method P rd m) v =
        rd\<lparr>data := Some (remove_quotes v),
           http_method := (if toUpperCase P m = js ''GET'' then js ''POST'' else toUpperCase P m)\<rparr>"
      by (simp add: set_data_def set_method_def Let_def)
    finally show ?thesis .
  qed
  from first second show ?thesis by blast
qed

theorem data_flag_promotion_witness:
  "is_data_flag (js ''--data'') \<and> is_request_flag (js ''-X'') \<and>
   parse_parts ascii_case requestData0 [js ''-k''] = Inr requestData0 \<and>
   parse_parts ascii_case requestData0 [js ''-k'', js ''--data'', js ''x''] =
     Inr \<lparr>http_method = js ''POST'', url = [], headers = [], data = Some (js ''x''), params = []\<rparr> \<and>
   parse_parts ascii_case requestData0 [js ''-X'', js ''put'', js ''--data'', js ''x''] =
     Inr \<lparr>http_method = js ''PUT'', url = [], headers = [], data = Some (js ''x''), params = []\<rparr> \<and>
   parse_parts ascii_case requestData0 [js ''-X'', js ''get'', js ''--data'', js ''x''] =
     Inr \<lparr>http_method = js ''POST'', url = [], headers = [], data = Some (js ''x''), params = []\<rparr>"
proof -
  have d: "is_data_flag (js ''--data'')" by code_simp
  have x: "is_request_flag (js ''-X'')" by code_simp
  have k: "parse_parts ascii_case requestData0 [js ''-k''] = Inr requestData0" by code_simp
  have put: "toUpperCase ascii_case (js ''put'') = js ''PUT''" by code_simp
  have get: "toUpperCase ascii_case (js ''get'') = js ''GET''" by code_simp
  have ne: "js ''PUT'' \<noteq> js ''GET''" by code_simp
  have rq: "remove_quotes (js ''x'') = js ''x''" by code_simp
  note t = data_flag_promotion [OF d, where P = ascii_case and rd = requestData0
      and pre = "[js ''-k'']" and ?rd1.0 = requestData0 and v = "js ''x''" and rest = "[]"
      and x = "js ''-X''"]
  from t [where m = "js ''put''"] t [where m = "js ''get''"] d x k show ?thesis
    by (simp add: put get ne rq requestData0_def)
qed

text \<open>
  Claim C3, as stated, fails: after an explicit \<open>-X GET\<close> the data flag does promote
  the method to \<open>POST\<close>, overriding the method that \<open>-X\<close> set.
\<close>

theorem explicit_GET_counterexample:
  "parseCurlCommand ascii_case (js ''curl -X GET -d x https://example.com'') =
     Inr \<lparr>http_method = js ''POST'', url = js ''https://example.com'', headers = [],
          data = Some (js ''x''), params = []\<rparr> \<and>
   js ''POST'' \<noteq> js ''GET''"
  by code_simp

section \<open>Unknown flags\<close>

text \<open>
  Claim C4, as amended. A flag that the \<open>switch\<close> does not know, read where the loop
  reads a flag, is skipped: the command parses to the same result, descriptor or
  error, as the command without it. The loop reads it as a flag when the parts before
  it are read completely, that is, when it is not the value that a preceding \<open>-H\<close>,
  \<open>-X\<close> or \<open>-d\<close> consumes.
\<close>

theorem unknown_flag_ignored:
  assumes "is_unknown_flag u"
    and "parse_parts P requestData0 pre = Inr rd"
    and "command_parts c = first # pre @ u # post"
    and "command_parts c' = first # pre @ post"
  shows "parseCurlCommand P c = parseCurlCommand P c'"
proof -
  from assms(1) have skip: "parse_parts P rd (u # post) = parse_parts P rd post"
    by (simp add: is_unknown_flag_def takes_value_def)
  have "parse_parts P requestData0 (pre @ u # post) = parse_parts P rd (u # post)"
    using assms(2) by (rule parse_parts_append)
  also note skip
  also have "parse_parts P rd post = parse_parts P requestData0 (pre @ post)"
    using assms(2) by (rule parse_parts_append [symmetric])
  finally have "parse_matched P (first # pre @ u # post) = parse_matched P (first # pre @ post)"
    by (simp add: parse_matched_def)
  with assms(3,4) show ?thesis
    by (simp add: parseCurlCommand_def command_parts_def)
qed

theorem unknown_flag_ignored_witness:
  "is_unknown_flag (js ''--compressed'') \<and>
   command_parts (js ''curl -X PUT --compressed https://example.com'') =
     js ''curl'' # [js ''-X'', js ''PUT''] @ js ''--compressed'' # [js ''https://example.com''] \<and>
   parseCurlCommand ascii_case (js ''curl -X PUT --compressed https://example.com'') =
     parseCurlCommand ascii_case (js ''curl -X PUT https://example.com'') \<and>
   parseCurlCommand ascii_case (js ''curl -X PUT --compressed https://example.com'') =
     Inr \<lparr>http_method = js ''PUT'', url = js ''https://example.com'', headers = [],
          data = None, params = []\<rparr>"
proof -
  have u: "is_unknown_flag (js ''--compressed'')" by code_simp
  have pre: "parse_parts ascii_case requestData0 [js ''-X'', js ''PUT''] =
     Inr \<lparr>http_method = js ''PUT'', url = [], headers = [], data = None, params = []\<rparr>"
    by code_simp
  have c: "command_parts (js ''curl -X PUT --compressed https://example.com'') =
     js ''curl'' # [js ''-X'', js ''PUT''] @ js ''--compressed'' # [js ''https://example.com'']"
    by code_simp
  have c': "command_parts (js ''curl -X PUT https://example.com'') =
     js ''curl'' # [js ''-X'', js ''PUT''] @ [js ''https://example.com'']"
    by code_simp
  have r: "parseCurlCommand ascii_case (js ''curl -X PUT --compressed https://example.com'') =
     Inr \<lparr>http_method = js ''PUT'', url = js ''https://example.com'', headers = [],
          data = None, params = []\<rparr>"
    by code_simp
  from unknown_flag_ignored [OF u pre c c'] u c r show ?thesis by simp
qed

text \<open>
  Claim C4, as stated, fails for an unknown flag that stands right after \<open>-X\<close> or
  \<open>-H\<close>: it is consumed as the value. With \<open>--compressed\<close> after \<open>-X\<close> the command
  parses, with the method \<open>--COMPRESSED\<close>, and without it the parse fails, since \<open>-X\<close>
  then consumes the URL. With \<open>--foo\<close> after \<open>-H\<close> the parse fails, since the header
  line that follows is read as the URL, and without it the command parses.
\<close>

theorem unknown_flag_value_counterexample:
  "is_unknown_flag (js ''--compressed'') \<and>
   parseCurlCommand ascii_case (js ''curl -X --compressed https://example.com'') =
     Inr \<lparr>http_method = js ''--COMPRESSED'', url = js ''https://example.com'', headers = [],
          data = None, params = []\<rparr> \<and>
   parseCurlCommand ascii_case (js ''curl -X https://example.com'') = Inl NoURL \<and>
   is_unknown_flag (js ''--foo'') \<and>
   parseCurlCommand ascii_case
     (js ''curl https://example.com -H --foo '' @ SQUOTE # js ''A: b'' @ [SQUOTE]) =
     Inl InvalidURL \<and>
   parseCurlCommand ascii_case
     (js ''curl https://example.com -H '' @ SQUOTE # js ''A: b'' @ [SQUOTE]) =
     Inr \<lparr>http_method = js ''GET'', url = js ''https://example.com'',
          headers = [(js ''A'', js ''b'')], data = None, params = []\<rparr>"
  by code_simp

section \<open>The authentication finding\<close>

lemma auth_step_type:
  "auth_type (auth_step hs a rule) =
     (if rule_matches hs rule then Some (snd (snd rule)) else auth_type a)"
  by (cases rule) (auto simp: Let_def split: option.splits)

lemma auth_step_present:
  "auth_present (auth_step hs a rule) = (auth_present a \<or> has_prop (fst rule) hs)"
  by (cases rule) (auto simp: Let_def has_prop_def split: option.splits)

lemma foldl_auth_type:
  "auth_type (foldl (auth_step hs) a table) =
     (let ms = filter (rule_matches hs) table
      in if ms = [] then auth_type a else Some (snd (snd (last ms))))"
proof (induction table rule: rev_induct)
  case Nil
  then show ?case by simp
next
  case (snoc rule table)
  then show ?case
    by (simp add: auth_step_type Let_def)
qed

lemma foldl_auth_present:
  "auth_present (foldl (auth_step hs) a table) =
     (auth_present a \<or> (\<exists>rule \<in> set table. has_prop (fst rule) hs))"
proof (induction table rule: rev_induct)
  case Nil
  then show ?case by simp
next
  case (snoc rule table)
  then show ?case
    by (auto simp: auth_step_present)
qed

lemma auth_loop_type: "auth_type (auth_loop table hs) = last_match table hs"
  by (simp add: auth_loop_def last_match_def foldl_auth_type Let_def)

lemma last_match_authHeaders:
  "last_match authHeaders hs =
     (if has_prop (js ''X-API-Key'') hs then Some (js ''API Key'')
      else if header_starts hs (js ''Authorization'') (js ''Basic'') then Some (js ''Basic Auth'')
      else if header_starts hs (js ''Authorization'') (js ''Bearer'') then Some (js ''Bearer Token'')
      else None)"
proof -
  have ne: "js ''Bearer'' \<noteq> []" "js ''Basic'' \<noteq> []"
    by (simp_all add: js_def)
  show ?thesis
    by (auto simp: last_match_def authHeaders_def Let_def has_prop_def header_starts_def ne
        split: option.splits)
qed

lemma analyzeRequest_authentication:
  "analyzeRequest new_URL requestData = Some a \<Longrightarrow>
     analysis_authentication a = auth_loop authHeaders (headers requestData)"
  by (auto simp: analyzeRequest_def split: option.splits)

text \<open>
  Claim C5. The authentication type that \<open>analyzeRequest\<close> reports is the type of the
  last rule of the table \<open>authHeaders\<close> that matches the headers. Spelled out for the
  three rules: \<open>X-API-Key\<close> wins whenever it is present, also over an \<open>Authorization\<close>
  header that starts with \<open>Bearer\<close> or \<open>Basic\<close>.
\<close>

theorem auth_type_last_match:
  assumes "analyzeRequest new_URL requestData = Some a"
  shows "auth_type (analysis_authentication a) = last_match authHeaders (headers requestData) \<and>
         auth_type (analysis_authentication a) =
           (if has_prop (js ''X-API-Key'') (headers requestData) then Some (js ''API Key'')
            else if header_starts (headers requestData) (js ''Authorization'') (js ''Basic'')
              then Some (js ''Basic Auth'')
            else if header_starts (headers requestData) (js ''Authorization'') (js ''Bearer'')
              then Some (js ''Bearer Token'')
            else None)"
  using analyzeRequest_authentication [OF assms]
  by (simp only: auth_loop_type last_match_authHeaders simp_thms)

theorem auth_type_last_match_witness:
  "map_option analysis_authentication
     (analyzeRequest example_URL
        \<lparr>http_method = js ''GET'', url = js ''https://example.com'',
         headers = [(js ''Authorization'', js ''Bearer xyz''), (js ''X-API-Key'', js ''k'')],
         data = None, params = []\<rparr>) =
     Some \<lparr>auth_present = True, auth_type = Some (js ''API Key'')\<rparr> \<and>
   last_match authHeaders [(js ''Authorization'', js ''Bearer xyz''), (js ''X-API-Key'', js ''k'')] =
     Some (js ''API Key'')"
proof -
  let ?rd = "\<lparr>http_method = js ''GET'', url = js ''https://example.com'',
         headers = [(js ''Authorization'', js ''Bearer xyz''), (js ''X-API-Key'', js ''k'')],
         data = None, params = []\<rparr>"
  obtain a where a: "analyzeRequest example_URL ?rd = Some a"
    by (simp add: analyzeRequest_def example_URL_def)
  have k: "has_prop (js ''X-API-Key'') (headers ?rd)"
    by code_simp
  have p: "auth_present (analysis_authentication a)"
    using a by (auto simp: analyzeRequest_def example_URL_def) code_simp
  from auth_type_last_match [OF a] k p a show ?thesis
    by (cases "analysis_authentication a") (simp del: select_convs)
qed

text \<open>
  Claim C6. \<open>present\<close> is true exactly when \<open>Authorization\<close> or \<open>X-API-Key\<close> is among
  the headers, whatever the values are; an \<open>Authorization\<close> header that starts with
  neither prefix, without \<open>X-API-Key\<close>, gives \<open>present = true\<close> with the type \<open>null\<close>.
\<close>

theorem auth_present_any_header:
  assumes "analyzeRequest new_URL requestData = Some a"
  shows "auth_present (analysis_authentication a) =
           (has_prop (js ''Authorization'') (headers requestData) \<or>
            has_prop (js ''X-API-Key'') (headers requestData)) \<and>
         (has_prop (js ''Authorization'') (headers requestData) \<and>
          \<not> has_prop (js ''X-API-Key'') (headers requestData) \<and>
          \<not> header_starts (headers requestData) (js ''Authorization'') (js ''Bearer'') \<and>
          \<not> header_starts (headers requestData) (js ''Authorization'') (js ''Basic'') \<longrightarrow>
          analysis_authentication a = \<lparr>auth_present = True, auth_type = None\<rparr>)"
proof -
  have auth: "analysis_authentication a = auth_loop authHeaders (headers requestData)"
    using assms by (rule analyzeRequest_authentication)
  have present: "auth_present (analysis_authentication a) =
           (has_prop (js ''Authorization'') (headers requestData) \<or>
            has_prop (js ''X-API-Key'') (headers requestData))"
    unfolding auth auth_loop_def foldl_auth_present
    by (auto simp: authHeaders_def)
  have type: "auth_type (analysis_authentication a) = last_match authHeaders (headers requestData)"
    unfolding auth by (rule auth_loop_type)
  show ?thesis
  proof (intro conjI impI)
    show "auth_present (analysis_authentication a) =
           (has_prop (js ''Authorization'') (headers requestData) \<or>
            has_prop (js ''X-API-Key'') (headers requestData))"
      by (rule present)
  next
    assume h: "has_prop (js ''Authorization'') (headers requestData) \<and>
          \<not> has_prop (js ''X-API-Key'') (headers requestData) \<and>
          \<not> header_starts (headers requestData) (js ''Authorization'') (js ''Bearer'') \<and>
          \<not> header_starts (headers requestData) (js ''Authorization'') (js ''Basic'')"
    then have "auth_type (analysis_authentication a) = None"
      by (simp add: type last_match_authHeaders)
    moreover have "auth_present (analysis_authentication a)"
      using h present by simp
    ultimately show "analysis_authentication a = \<lparr>auth_present = True, auth_type = None\<rparr>"
      by (cases "analysis_authentication a") simp
  qed
qed

theorem auth_present_any_header_witness:
  "map_option analysis_authentication
     (analyzeRequest example_URL
        \<lparr>http_method = js ''GET'', url = js ''https://example.com'',
         headers = [(js ''Authorization'', js ''Digest x'')],
         data = None, params = []\<rparr>) =
     Some \<lparr>auth_present = True, auth_type = None\<rparr> \<and>
   has_prop (js ''Authorization'') [(js ''Authorization'', js ''Digest x'')]"
proof -
  let ?rd = "\<lparr>http_method = js ''GET'', url = js ''https://example.com'',
         headers = [(js ''Authorization'', js ''Digest x'')],
         data = None, params = []\<rparr>"
  obtain a where a: "analyzeRequest example_URL ?rd = Some a"
    by (simp add: analyzeRequest_def example_URL_def)
  have h: "has_prop (js ''Authorization'') (headers ?rd)" by code_simp
  have k: "\<not> has_prop (js ''X-API-Key'') (headers ?rd)" by code_simp
  have b: "\<not> header_starts (headers ?rd) (js ''Authorization'') (js ''Bearer'')" by code_simp
  have c: "\<not> header_starts (headers ?rd) (js ''Authorization'') (js ''Basic'')" by code_simp
  from auth_present_any_header [OF a] h k b c
  have "analysis_authentication a = \<lparr>auth_present = True, auth_type = None\<rparr>"
    by blast
  with a h show ?thesis by simp
qed

section \<open>The header flags\<close>

lemma split_not_Nil [simp]: "split sep s \<noteq> []"
  by (induction s) (auto split: list.splits)

lemma hd_split: "hd (split sep s) = takeWhile (\<lambda>c. c \<noteq> sep) s"
  by (induction s) (auto split: list.splits)

lemma join_Cons: "join sep (p # ps) = (if ps = [] then p else p @ sep # join sep ps)"
  by (cases ps) simp_all

lemma join_split: "join sep (split sep s) = s"
proof (induction s)
  case Nil
  show ?case by simp
next
  case (Cons c cs)
  obtain p ps where sp: "split sep cs = p # ps"
    by (cases "split sep cs") simp_all
  with Cons have "join sep (p # ps) = cs" by simp
  then show ?case
    using sp by (auto simp: join_Cons split: if_splits)
qed

lemma join_tl_split:
  "join sep (tl (split sep s)) = tl (dropWhile (\<lambda>c. c \<noteq> sep) s)"
proof (induction s)
  case Nil
  show ?case by simp
next
  case (Cons c cs)
  show ?case
  proof (cases "c = sep")
    case True
    then show ?thesis by (simp add: join_split)
  next
    case False
    obtain p ps where sp: "split sep cs = p # ps"
      by (cases "split sep cs") simp_all
    with False Cons show ?thesis by simp
  qed
qed

lemma add_header_eq:
  "add_header rd v = rd\<lparr>headers := set_prop (headers rd) (header_key v) (header_value v)\<rparr>"
  by (simp add: add_header_def Let_def header_key_def header_value_def hd_split join_tl_split)

lemma map_of_set_prop:
  "k \<noteq> js ''__proto__'' \<Longrightarrow> map_of (set_prop hs k v) = (map_of hs)(k \<mapsto> v)"
  by (simp add: set_prop_def update_conv')

text \<open>
  Claim C7, as amended. Reading \<open>-H\<close> or \<open>--header\<close> with its value removes every quote
  character of the value, splits the line at the first colon only, trims both sides
  and assigns the pair to \<open>headers\<close>. For every key but \<open>__proto__\<close> the assignment
  stores the pair: the key then maps to the new value, whatever it mapped to before,
  and every other key is unchanged.
\<close>

theorem header_flag_assigns:
  assumes "is_header_flag part"
  shows "parse_parts P rd (part # v # rest) =
           parse_parts P (rd\<lparr>headers := set_prop (headers rd) (header_key v) (header_value v)\<rparr>) rest \<and>
         (header_key v \<noteq> js ''__proto__'' \<longrightarrow>
            map_of (set_prop (headers rd) (header_key v) (header_value v)) =
              (map_of (headers rd))(header_key v \<mapsto> header_value v))"
  using assms header_flag_is_flag [OF assms]
  by (simp add: add_header_eq map_of_set_prop)

theorem header_flag_assigns_witness:
  "is_header_flag (js ''-H'') \<and>
   header_key (SQUOTE # js ''X-Custom: a:b'' @ [SQUOTE]) = js ''X-Custom'' \<and>
   header_value (SQUOTE # js ''X-Custom: a:b'' @ [SQUOTE]) = js ''a:b'' \<and>
   parse_parts ascii_case requestData0 [js ''-H'', SQUOTE # js ''X-Custom: a:b'' @ [SQUOTE]] =
     Inr \<lparr>http_method = js ''GET'', url = [], headers = [(js ''X-Custom'', js ''a:b'')],
          data = None, params = []\<rparr> \<and>
   map_of (set_prop [(js ''X-Custom'', js ''old'')] (js ''X-Custom'') (js ''a:b'')) =
     (map_of [(js ''X-Custom'', js ''old'')])(js ''X-Custom'' \<mapsto> js ''a:b'')"
proof -
  let ?v = "SQUOTE # js ''X-Custom: a:b'' @ [SQUOTE]"
  have h: "is_header_flag (js ''-H'')" by code_simp
  have k: "header_key ?v = js ''X-Custom''" by code_simp
  have v: "header_value ?v = js ''a:b''" by code_simp
  have ne: "js ''X-Custom'' \<noteq> js ''__proto__''" by code_simp
  have s: "set_prop [] (js ''X-Custom'') (js ''a:b'') = [(js ''X-Custom'', js ''a:b'')]"
    by code_simp
  from header_flag_assigns [OF h, where P = ascii_case and rd = requestData0 and v = ?v
        and rest = "[]"]
    header_flag_assigns [OF h, where P = ascii_case
        and rd = "requestData0\<lparr>headers := [(js ''X-Custom'', js ''old'')]\<rparr>" and v = ?v
        and rest = "[]"]
    h ne
  show ?thesis
    by (simp add: k v s requestData0_def)
qed

text \<open>
  Claim C7, as stated, fails: the quotes inside the value go as well, not only the
  surrounding ones. For the part \<open>'X-Msg: say "hi"'\<close> the stored value is \<open>say hi\<close>,
  where stripping the surrounding quotes and splitting at the first colon gives
  \<open>say "hi"\<close>.
\<close>

theorem interior_quotes_counterexample:
  "parseCurlCommand ascii_case
     (js ''curl -H '' @ SQUOTE # js ''X-Msg: say '' @ DQUOTE # js ''hi'' @ DQUOTE # SQUOTE #
      js '' https://example.com'') =
     Inr \<lparr>http_method = js ''GET'', url = js ''https://example.com'',
          headers = [(js ''X-Msg'', js ''say hi'')], data = None, params = []\<rparr> \<and>
   claimed_header_value (SQUOTE # js ''X-Msg: say '' @ DQUOTE # js ''hi'' @ [DQUOTE, SQUOTE]) =
     js ''say '' @ DQUOTE # js ''hi'' @ [DQUOTE] \<and>
   js ''say hi'' \<noteq> js ''say '' @ DQUOTE # js ''hi'' @ [DQUOTE]"
  by code_simp

text \<open>
  The key \<open>__proto__\<close> is the exception: the header \<open>__proto__: x\<close> is not stored.
\<close>

theorem proto_header_dropped:
  "parseCurlCommand ascii_case
     (js ''curl -H '' @ SQUOTE # js ''__proto__: x'' @ SQUOTE # js '' https://example.com'') =
     Inr \<lparr>http_method = js ''GET'', url = js ''https://example.com'',
          headers = [], data = None, params = []\<rparr>"
  by code_simp

section \<open>Quote characters\<close>

lemma data_simps [simp]:
  "data (add_header rd v) = data rd"
  "data (set_method P rd v) = data rd"
  "data (set_data rd v) = Some (remove_quotes v)"
  by (simp_all add: add_header_def set_method_def set_data_def Let_def)

lemma headers_simps [simp]:
  "headers (add_header rd v) = assign_header (headers rd) v"
  "headers (set_method P rd v) = headers rd"
  "headers (set_data rd v) = headers rd"
  by (simp_all add: add_header_eq assign_header_def set_method_def set_data_def Let_def)

lemma parse_parts_data:
  "parse_parts P rd ps = Inr rd' \<Longrightarrow>
     data rd' = (if data_values ps = [] then data rd else Some (remove_quotes (last (data_values ps))))"
proof (induction P rd ps rule: parse_parts.induct)
  case (1 P requestData)
  then show ?case by simp
next
  case (2 P requestData part rest)
  show ?case
  proof (cases rest)
    case Nil
    with "2.prems" show ?thesis
      by (auto simp: takes_value_def split: if_splits)
  next
    case (Cons v rest')
    with "2.prems" "2.IH" show ?thesis
      by (auto simp: takes_value_def dest: flags_exclusive split: if_splits)
  qed
qed

lemma parse_parts_headers:
  "parse_parts P rd ps = Inr rd' \<Longrightarrow>
     headers rd' = foldl assign_header (headers rd) (header_values ps)"
proof (induction P rd ps rule: parse_parts.induct)
  case (1 P requestData)
  then show ?case by simp
next
  case (2 P requestData part rest)
  show ?case
  proof (cases rest)
    case Nil
    with "2.prems" show ?thesis
      by (auto simp: takes_value_def split: if_splits)
  next
    case (Cons v rest')
    with "2.prems" "2.IH" show ?thesis
      by (auto simp: takes_value_def dest: flags_exclusive split: if_splits)
  qed
qed

lemma quote_free_remove_quotes: "quote_free (remove_quotes s)"
  by (simp add: quote_free_def remove_quotes_def list_all_iff)

lemma quote_free_subset: "set t \<subseteq> set s \<Longrightarrow> quote_free s \<Longrightarrow> quote_free t"
  by (auto simp: quote_free_def list_all_iff)

lemma set_dropWhile_subset: "set (dropWhile P xs) \<subseteq> set xs"
  by (auto dest: set_dropWhileD)

lemma set_tl_subset: "set (tl xs) \<subseteq> set xs"
  by (cases xs) auto

lemma set_trim: "set (trim s) \<subseteq> set s"
proof -
  have "set (trim s) = set (dropWhile is_space (rev (dropWhile is_space s)))"
    by (simp add: trim_def)
  also have "\<dots> \<subseteq> set (rev (dropWhile is_space s))"
    by (rule set_dropWhile_subset)
  also have "\<dots> = set (dropWhile is_space s)"
    by simp
  also have "\<dots> \<subseteq> set s"
    by (rule set_dropWhile_subset)
  finally show ?thesis .
qed

lemma quote_free_header_key: "quote_free (header_key v)"
proof -
  have "set (header_key v) \<subseteq> set (takeWhile (\<lambda>c. c \<noteq> COLON) (remove_quotes v))"
    unfolding header_key_def by (rule set_trim)
  also have "\<dots> \<subseteq> set (remove_quotes v)"
    by (auto dest: set_takeWhileD)
  finally show ?thesis
    using quote_free_remove_quotes by (rule quote_free_subset)
qed

lemma quote_free_header_value: "quote_free (header_value v)"
proof -
  have "set (header_value v) \<subseteq> set (tl (dropWhile (\<lambda>c. c \<noteq> COLON) (remove_quotes v)))"
    unfolding header_value_def by (rule set_trim)
  also have "\<dots> \<subseteq> set (dropWhile (\<lambda>c. c \<noteq> COLON) (remove_quotes v))"
    by (rule set_tl_subset)
  also have "\<dots> \<subseteq> set (remove_quotes v)"
    by (rule set_dropWhile_subset)
  finally show ?thesis
    using quote_free_remove_quotes by (rule quote_free_subset)
qed


lemma quote_free_update:
  "quote_free_dict hs \<Longrightarrow> quote_free k \<Longrightarrow> quote_free v \<Longrightarrow>
     quote_free_dict (AList.update k v hs)"
  by (induction hs) (auto simp: quote_free_dict_def)

lemma quote_free_assign_header:
  "quote_free_dict hs \<Longrightarrow> quote_free_dict (assign_header hs v)"
  by (simp add: assign_header_def set_prop_def quote_free_update
      quote_free_header_key quote_free_header_value)

lemma quote_free_foldl:
  "quote_free_dict hs \<Longrightarrow> quote_free_dict (foldl assign_header hs vs)"
  by (induction vs arbitrary: hs) (simp_all add: quote_free_assign_header)

text \<open>
  Claim C10. In the descriptor of a command that parses, the URL is the last URL part
  with every quote character removed, the body is the value of the last data flag with
  every quote character removed, and the headers are the assignments of the header
  lines, each with every quote character removed, in order. No quote character, single
  or double, is left in the URL, in the body, or in a key or value of the headers.
\<close>

theorem quotes_removed:
  assumes "parseCurlCommand P curlCommand = Inr requestData"
  shows "url requestData = remove_quotes (last (url_candidates (tl (command_parts curlCommand)))) \<and>
         data requestData =
           (if data_values (tl (command_parts curlCommand)) = [] then None
            else Some (remove_quotes (last (data_values (tl (command_parts curlCommand)))))) \<and>
         headers requestData =
           foldl assign_header [] (header_values (tl (command_parts curlCommand))) \<and>
         quote_free (url requestData) \<and>
         (case data requestData of None \<Rightarrow> True | Some d \<Rightarrow> quote_free d) \<and>
         quote_free_dict (headers requestData)"
proof -
  obtain first ps where parts: "command_parts curlCommand = first # ps"
    using assms by (cases "command_parts curlCommand")
      (simp_all add: parseCurlCommand_def command_parts_def parse_matched_def)
  let ?ps = "tl (command_parts curlCommand)"
  have ps: "?ps = ps" using parts by simp
  from assms parts obtain rd where
    loop': "parse_parts P requestData0 ps = Inr rd" and v: "validate rd = Inr requestData"
    by (auto simp: parseCurlCommand_def command_parts_def parse_matched_def
        strict_equals_bool_string_def split: sum.splits)
  from loop' ps have loop: "parse_parts P requestData0 ?ps = Inr rd" by simp
  from v have same: "requestData = rd" and nonempty: "url rd \<noteq> []"
    by (auto simp: validate_def split: if_splits)
  have init: "url requestData0 = []" "data requestData0 = None" "headers requestData0 = []"
    by (simp_all add: requestData0_def)
  have u: "url requestData = remove_quotes (last (url_candidates ?ps))"
    using parse_parts_url [OF loop] nonempty same init by (auto split: if_splits)
  have d: "data requestData =
           (if data_values ?ps = [] then None else Some (remove_quotes (last (data_values ?ps))))"
    using parse_parts_data [OF loop] same init by simp
  have h: "headers requestData = foldl assign_header [] (header_values ?ps)"
    using parse_parts_headers [OF loop] same init by simp
  have qu: "quote_free (url requestData)"
    unfolding u by (rule quote_free_remove_quotes)
  have qd: "case data requestData of None \<Rightarrow> True | Some d \<Rightarrow> quote_free d"
    unfolding d by (simp add: quote_free_remove_quotes)
  have qh: "quote_free_dict (headers requestData)"
    unfolding h by (rule quote_free_foldl) (simp add: quote_free_dict_def)
  from u d h qu qd qh show ?thesis by blast
qed

theorem quotes_removed_witness:
  "parseCurlCommand ascii_case
     (js ''curl -d '' @ SQUOTE # js ''{'' @ DQUOTE # js ''a'' @ DQUOTE # js '':1}'' @ SQUOTE #
      js '' https://example.com'') =
     Inr \<lparr>http_method = js ''POST'', url = js ''https://example.com'', headers = [],
          data = Some (js ''{a:1}''), params = []\<rparr> \<and>
   data_values (tl (command_parts
     (js ''curl -d '' @ SQUOTE # js ''{'' @ DQUOTE # js ''a'' @ DQUOTE # js '':1}'' @ SQUOTE #
      js '' https://example.com''))) =
     [SQUOTE # js ''{'' @ DQUOTE # js ''a'' @ DQUOTE # js '':1}'' @ [SQUOTE]] \<and>
   quote_free (js ''{a:1}'')"
proof -
  let ?c = "js ''curl -d '' @ SQUOTE # js ''{'' @ DQUOTE # js ''a'' @ DQUOTE # js '':1}'' @ SQUOTE #
      js '' https://example.com''"
  have p: "parseCurlCommand ascii_case ?c =
     Inr \<lparr>http_method = js ''POST'', url = js ''https://example.com'', headers = [],
          data = Some (js ''{a:1}''), params = []\<rparr>"
    by code_simp
  have dv: "data_values (tl (command_parts ?c)) =
     [SQUOTE # js ''{'' @ DQUOTE # js ''a'' @ DQUOTE # js '':1}'' @ [SQUOTE]]"
    by code_simp
  have q: "quote_free (js ''{a:1}'')"
    by code_simp
  from quotes_removed [OF p] p dv q show ?thesis by simp
qed

section \<open>The body summary\<close>

lemma length_utf8_encode:
  "length (utf8_encode cp) =
     (if cp < 0x80 then 1 else if cp < 0x800 then 2 else if cp < 0x10000 then 3 else 4)"
  by (simp add: utf8_encode_def)

lemma ascii_unat: "(c < 0x80) = (unat c < 0x80)" for c :: code_unit
  by (simp add: word_less_nat_alt)

lemma surrogate_not_ascii:
  "is_high_surrogate c \<or> is_low_surrogate c \<Longrightarrow> \<not> c < 0x80"
  by (auto simp: is_high_surrogate_def is_low_surrogate_def word_le_nat_alt word_less_nat_alt)

lemma unat_code_unit: "unat c < 0x10000" for c :: code_unit
  using unsigned_less [of c, where ?'a = nat] by simp

lemma length_utf8_scalar:
  "length (utf8_encode (scalar c)) = (if c < 0x80 then 1 else if c < 0x800 then 2 else 3)"
proof (cases "is_high_surrogate c \<or> is_low_surrogate c")
  case True
  then have "\<not> c < 0x800"
    by (auto simp: is_high_surrogate_def is_low_surrogate_def word_le_nat_alt word_less_nat_alt)
  with True surrogate_not_ascii [OF True] show ?thesis
    by (simp add: scalar_def length_utf8_encode)
next
  case False
  then show ?thesis
    using unat_code_unit [of c]
    by (simp add: scalar_def length_utf8_encode word_less_nat_alt)
qed

lemma blob_size_Nil: "blob_size [] = 0"
  by (simp add: blob_size_def utf8_def)

lemma blob_size_single: "blob_size [c] = length (utf8_encode (scalar c))"
  by (simp add: blob_size_def utf8_def)

lemma blob_size_pair:
  "is_high_surrogate c \<and> is_low_surrogate d \<Longrightarrow> blob_size (c # d # cs) = 4 + blob_size cs"
  by (simp add: blob_size_def utf8_def length_utf8_encode)

lemma blob_size_unit:
  "\<not> (is_high_surrogate c \<and> is_low_surrogate d) \<Longrightarrow>
     blob_size (c # d # cs) = length (utf8_encode (scalar c)) + blob_size (d # cs)"
  by (auto simp: blob_size_def utf8_def)

lemmas blob_size_simps = blob_size_Nil blob_size_single blob_size_pair blob_size_unit

lemma blob_size_length:
  "length s \<le> blob_size s \<and> (blob_size s = length s) = list_all (\<lambda>c. c < 0x80) s"
proof (induction s rule: code_points.induct)
  case 1
  show ?case by (simp add: blob_size_simps)
next
  case (2 c)
  show ?case by (simp add: blob_size_simps length_utf8_scalar)
next
  case (3 c d cs)
  show ?case
  proof (cases "is_high_surrogate c \<and> is_low_surrogate d")
    case True
    then have "\<not> c < 0x80" "\<not> d < 0x80"
      using surrogate_not_ascii by blast+
    with True "3.IH"(1) show ?thesis
      by (auto simp: blob_size_simps)
  next
    case False
    with "3.IH"(2) show ?thesis
      by (auto simp: blob_size_simps length_utf8_scalar)
  qed
qed

text \<open>
  Claim C8, as amended. The body summary is \<open>{present: false}\<close>, with no other field,
  when the body is \<open>null\<close> or the empty string. Otherwise \<open>present\<close> is true,
  \<open>size_bytes\<close> is the number of bytes of the UTF-8 encoding of the body, and the
  preview is the body when it has at most 200 code units and its first 200 code units
  followed by \<open>...\<close> otherwise. The number of bytes is at least the number of code
  units, and equal to it exactly when every code unit is ASCII.
\<close>

theorem body_summary_truthy:
  assumes "analyzeRequest new_URL requestData = Some a"
  shows "analysis_body a =
           (case data requestData of
              None \<Rightarrow> absent_body
            | Some s \<Rightarrow>
                if s = [] then absent_body
                else \<lparr>body_present = True,
                      size_bytes = Some (length (utf8 s)),
                      content_preview =
                        Some (if length s \<le> 200 then s else take 200 s @ js ''...'')\<rparr>) \<and>
         (case data requestData of
            None \<Rightarrow> True
          | Some s \<Rightarrow>
              length s \<le> length (utf8 s) \<and>
              (length (utf8 s) = length s) = list_all (\<lambda>c. c < 0x80) s)"
proof -
  have body: "analysis_body a = analyze_body (data requestData)"
    using assms by (auto simp: analyzeRequest_def split: option.splits)
  have len: "length s \<le> length (utf8 s) \<and>
      (length (utf8 s) = length s) = list_all (\<lambda>c. c < 0x80) s" for s
    using blob_size_length [of s] by (simp add: blob_size_def)
  show ?thesis
    unfolding body
    by (cases "data requestData")
      (simp_all add: analyze_body_def absent_body_def blob_size_def len not_less)
qed

lemmas utf8_eval =
  utf8_def scalar_def is_high_surrogate_def is_low_surrogate_def utf8_encode_def

theorem body_summary_truthy_witness:
  "map_option analysis_body
     (analyzeRequest example_URL
        \<lparr>http_method = js ''POST'', url = js ''https://example.com'', headers = [],
         data = Some (replicate 250 0x61), params = []\<rparr>) =
     Some \<lparr>body_present = True, size_bytes = Some 250,
           content_preview = Some (replicate 200 0x61 @ js ''...'')\<rparr> \<and>
   map_option analysis_body
     (analyzeRequest example_URL
        \<lparr>http_method = js ''POST'', url = js ''https://example.com'', headers = [],
         data = Some [0xE9, 0xE9, 0xE9, 0xE9, 0xE9, 0xE9, 0xE9, 0xE9, 0xE9, 0xE9], params = []\<rparr>) =
     Some \<lparr>body_present = True, size_bytes = Some 20,
           content_preview = Some [0xE9, 0xE9, 0xE9, 0xE9, 0xE9, 0xE9, 0xE9, 0xE9, 0xE9, 0xE9]\<rparr> \<and>
   utf8 [0xE9] = [0xC3, 0xA9] \<and>
   utf8 [0x20AC] = [0xE2, 0x82, 0xAC] \<and>
   utf8 [0xD83D, 0xDE00] = [0xF0, 0x9F, 0x98, 0x80] \<and>
   utf8 [0xDE00] = [0xEF, 0xBF, 0xBD]"
proof -
  let ?r1 = "\<lparr>http_method = js ''POST'', url = js ''https://example.com'', headers = [],
         data = Some (replicate 250 0x61), params = []\<rparr>"
  let ?r2 = "\<lparr>http_method = js ''POST'', url = js ''https://example.com'', headers = [],
         data = Some [0xE9, 0xE9, 0xE9, 0xE9, 0xE9, 0xE9, 0xE9, 0xE9, 0xE9, 0xE9], params = []\<rparr>"
  obtain a1 where a1: "analyzeRequest example_URL ?r1 = Some a1"
    by (simp add: analyzeRequest_def example_URL_def)
  obtain a2 where a2: "analyzeRequest example_URL ?r2 = Some a2"
    by (simp add: analyzeRequest_def example_URL_def)
  have "list_all (\<lambda>c. c < 0x80) (replicate 250 (0x61 :: code_unit))"
    by (simp add: list_all_iff)
  with blob_size_length [of "replicate 250 (0x61 :: code_unit)"]
  have l1: "length (utf8 (replicate 250 (0x61 :: code_unit))) = 250"
    by (simp add: blob_size_def)
  have l2: "length (utf8 [0xE9, 0xE9, 0xE9, 0xE9, 0xE9, 0xE9, 0xE9, 0xE9, 0xE9, 0xE9]) = 20"
    by (simp add: utf8_eval)
  have e: "utf8 [0xE9] = [0xC3, 0xA9]" "utf8 [0x20AC] = [0xE2, 0x82, 0xAC]"
    "utf8 [0xD83D, 0xDE00] = [0xF0, 0x9F, 0x98, 0x80]" "utf8 [0xDE00] = [0xEF, 0xBF, 0xBD]"
    by (simp_all add: utf8_eval)
  have b1: "analysis_body a1 = \<lparr>body_present = True, size_bytes = Some 250,
           content_preview = Some (replicate 200 0x61 @ js ''...'')\<rparr>"
    using body_summary_truthy [OF a1] by (simp add: l1)
  have b2: "analysis_body a2 = \<lparr>body_present = True, size_bytes = Some 20,
           content_preview = Some [0xE9, 0xE9, 0xE9, 0xE9, 0xE9, 0xE9, 0xE9, 0xE9, 0xE9, 0xE9]\<rparr>"
    using body_summary_truthy [OF a2] by (simp add: l2)
  from a1 a2 b1 b2 e show ?thesis by simp
qed

text \<open>
  Claim C8, as stated, fails on the empty body: it is not \<open>null\<close>, and the summary is
  \<open>{present: false}\<close> all the same. The parser produces such a body from \<open>-d ''\<close>.
\<close>

theorem empty_body_counterexample:
  "parseCurlCommand ascii_case (js ''curl -d '' @ [SQUOTE, SQUOTE] @ js '' https://example.com'') =
     Inr \<lparr>http_method = js ''POST'', url = js ''https://example.com'', headers = [],
          data = Some [], params = []\<rparr> \<and>
   map_option analysis_body
     (analyzeRequest example_URL
        \<lparr>http_method = js ''POST'', url = js ''https://example.com'', headers = [],
         data = Some [], params = []\<rparr>) =
     Some \<lparr>body_present = False, size_bytes = None, content_preview = None\<rparr>"
  by code_simp

section \<open>The security audit\<close>

lemma lower_names:
  "ascii_lower (js ''Strict-Transport-Security'') = js ''strict-transport-security''"
  "ascii_lower (js ''X-Frame-Options'') = js ''x-frame-options''"
  "ascii_lower (js ''X-Content-Type-Options'') = js ''x-content-type-options''"
  "ascii_lower (js ''X-XSS-Protection'') = js ''x-xss-protection''"
  by (simp_all add: ascii_lower_def lower_unit_def js_def)

lemma has_prop_received:
  "has_prop k (received_headers wire) = list_ex (\<lambda>(n, v). ascii_lower n = k) wire"
  by (induction wire) (auto simp: has_prop_def received_headers_def)

lemma securityHeaders_names: "map fst (securityHeaders hs) = security_header_names"
  by (simp add: securityHeaders_def security_header_names_def)

lemma securityHeaders_descriptions:
  "map (\<lambda>(name, h). description h) (securityHeaders hs) = security_header_descriptions"
  by (simp add: securityHeaders_def security_header_descriptions_def)

lemma securityHeaders_present:
  "map (\<lambda>(name, h). present h) (securityHeaders hs) =
     map (\<lambda>name. has_prop (ascii_lower name) hs) security_header_names"
  by (simp add: securityHeaders_def security_header_names_def lower_names)

text \<open>
  Claim C9. For every response, whatever its status and headers, \<open>analyzeResponse\<close>
  returns an analysis whose security audit has exactly the four keys
  \<open>Strict-Transport-Security\<close>, \<open>X-Frame-Options\<close>, \<open>X-Content-Type-Options\<close> and
  \<open>X-XSS-Protection\<close>, pairwise different, each with its fixed description; \<open>present\<close>
  says whether the lower-case name is among the response headers, which for headers
  delivered in lower case is whether the header was sent, in any case.
\<close>

theorem security_audit_four_keys:
  "(\<exists>a. analyzeResponse requestData (Inr r) = Inr a \<and>
        map fst (security_analysis a) = security_header_names \<and>
        map (\<lambda>(name, h). description h) (security_analysis a) = security_header_descriptions \<and>
        map (\<lambda>(name, h). present h) (security_analysis a) =
          map (\<lambda>name. has_prop (ascii_lower name) (response_headers r)) security_header_names \<and>
        (response_headers r = received_headers wire \<longrightarrow>
           map (\<lambda>(name, h). present h) (security_analysis a) =
             map (sent_as wire) security_header_names)) \<and>
   length security_header_names = 4 \<and> distinct security_header_names"
proof -
  let ?a = "\<lparr>status_code = status r,
               reason = statusText r,
               ra_headers = response_headers r,
               content_type = get_or (response_headers r) (js ''content-type'') [],
               encoding = get_or (response_headers r) (js ''content-encoding'') (js ''identity''),
               redirect_count = (if responseUrl r \<noteq> url requestData then 1 else 0),
               final_url = responseUrl r,
               security_analysis = securityHeaders (response_headers r)\<rparr>"
  have a: "analyzeResponse requestData (Inr r) = Inr ?a"
    by (simp add: analyzeResponse_def)
  have sa: "security_analysis ?a = securityHeaders (response_headers r)"
    by simp
  have names: "map fst (security_analysis ?a) = security_header_names"
    unfolding sa by (rule securityHeaders_names)
  have descriptions:
    "map (\<lambda>(name, h). description h) (security_analysis ?a) = security_header_descriptions"
    unfolding sa by (rule securityHeaders_descriptions)
  have presents: "map (\<lambda>(name, h). present h) (security_analysis ?a) =
      map (\<lambda>name. has_prop (ascii_lower name) (response_headers r)) security_header_names"
    unfolding sa by (rule securityHeaders_present)
  have wire: "response_headers r = received_headers wire \<longrightarrow>
      map (\<lambda>(name, h). present h) (security_analysis ?a) =
        map (sent_as wire) security_header_names"
    unfolding presents
    by (simp add: has_prop_received sent_as_def [abs_def])
  have four: "length security_header_names = 4"
    by (simp add: security_header_names_def)
  have dist: "distinct security_header_names"
    by (simp add: security_header_names_def js_def)
  have "\<exists>a. analyzeResponse requestData (Inr r) = Inr a \<and>
        map fst (security_analysis a) = security_header_names \<and>
        map (\<lambda>(name, h). description h) (security_analysis a) = security_header_descriptions \<and>
        map (\<lambda>(name, h). present h) (security_analysis a) =
          map (\<lambda>name. has_prop (ascii_lower name) (response_headers r)) security_header_names \<and>
        (response_headers r = received_headers wire \<longrightarrow>
           map (\<lambda>(name, h). present h) (security_analysis a) =
             map (sent_as wire) security_header_names)"
    by (rule exI [of _ ?a]) (intro conjI a names descriptions presents wire)
  with four dist show ?thesis by simp
qed

theorem security_audit_four_keys_witness:
  "map_sum id security_analysis
     (analyzeResponse requestData0
        (Inr \<lparr>status = 500, statusText = js ''Internal Server Error'', response_headers = [],
              responseUrl = []\<rparr>)) =
     Inr [(js ''Strict-Transport-Security'',
           \<lparr>present = False,
            description = js ''Enforces secure (HTTPS) connections to the server''\<rparr>),
          (js ''X-Frame-Options'',
           \<lparr>present = False, description = js ''Protects against clickjacking attacks''\<rparr>),
          (js ''X-Content-Type-Options'',
           \<lparr>present = False, description = js ''Prevents MIME type sniffing''\<rparr>),
          (js ''X-XSS-Protection'',
           \<lparr>present = False,
            description = js ''Enables cross-site scripting filter in browsers''\<rparr>)] \<and>
   map (sent_as [(js ''X-FRAME-Options'', js ''DENY'')]) security_header_names =
     [False, True, False, False]"
proof -
  let ?r = "\<lparr>status = 500, statusText = js ''Internal Server Error'', response_headers = [],
              responseUrl = []\<rparr>"
  let ?w = "[(js ''X-FRAME-Options'', js ''DENY'')]"
  have s: "map (sent_as ?w) security_header_names = [False, True, False, False]"
    by (simp add: sent_as_def security_header_names_def ascii_lower_def lower_unit_def js_def)
  have e: "response_headers ?r = received_headers []"
    by (simp add: received_headers_def)
  from security_audit_four_keys [of requestData0 ?r "[]"] e s show ?thesis
    by (simp add: analyzeResponse_def securityHeaders_def has_prop_def)
qed

end
